theory Spec2Isabelle
  imports Main "HOL-Library.Sublist" "HOL-Library.Multiset"
begin

section \<open>JavaScript values seen by the handlers\<close>

text \<open>
  This theory follows the server of \<^verbatim>\<open>index.js\<close> that has both the form routes and the
  to-do routes. (The file also holds an older copy of the server with the form routes
  only, which builds the base URL from the override and localhost alone and checks
  the fields after it; that copy is not modelled.) A request is taken as the route
  sees it once the body parser has accepted it, with at most one file, sent in the
  field \<^verbatim>\<open>photo\<close>.

  The handlers read fields of \<^verbatim>\<open>req.body\<close> (parsed JSON, or the text fields of a
  multipart form), test them with \<^verbatim>\<open>!x\<close> and \<^verbatim>\<open>x || y\<close>, and hand them to the database
  driver. A number is kept as the text that JavaScript prints for it and a nested
  object or array as the text the driver sends for it: truthiness and that text are
  all the code observes of such a value. A string is the list of the bytes of its UTF-8
  encoding, which is how the driver sends it to the store.
\<close>

datatype jsval =
    JUndefined
  | JNull
  | JBool bool
  | JNum string
  | JStr string
  | JObj string

fun truthy :: "jsval \<Rightarrow> bool" where
  "truthy JUndefined = False"
| "truthy JNull = False"
| "truthy (JBool b) = b"
| "truthy (JNum s) = (s \<noteq> ''0'' \<and> s \<noteq> ''NaN'')"
| "truthy (JStr s) = (s \<noteq> [])"
| "truthy (JObj s) = True"

definition js_or :: "jsval \<Rightarrow> jsval \<Rightarrow> jsval" where
  "js_or a b = (if truthy a then a else b)"

type_synonym body = "string \<rightharpoonup> jsval"

definition get_field :: "body \<Rightarrow> string \<Rightarrow> jsval" where
  "get_field b k = (case b k of None \<Rightarrow> JUndefined | Some v \<Rightarrow> v)"

text \<open>\<^verbatim>\<open>process.env\<close>: a variable is a string or is not set.\<close>

type_synonym env = "string \<rightharpoonup> string"

definition env_or :: "string option \<Rightarrow> string \<Rightarrow> string" where
  "env_or a b = (case a of None \<Rightarrow> b | Some s \<Rightarrow> if s \<noteq> [] then s else b)"

definition str_or :: "string \<Rightarrow> string \<Rightarrow> string" where
  "str_or a b = (if a \<noteq> [] then a else b)"

text \<open>
  Query parameters of \<^verbatim>\<open>req.query\<close>: absent, a string, or an array or object (a key
  given twice or with brackets), kept as the text a template literal prints for it.
\<close>

datatype qparam = QAbsent | QString string | QNested string

fun q_truthy :: "qparam \<Rightarrow> bool" where
  "q_truthy QAbsent = False"
| "q_truthy (QString s) = (s \<noteq> [])"
| "q_truthy (QNested s) = True"

fun q_text :: "qparam \<Rightarrow> string" where
  "q_text QAbsent = ''undefined''"
| "q_text (QString s) = s"
| "q_text (QNested s) = s"

section \<open>Decimal text of a natural number\<close>

definition digit_char :: "nat \<Rightarrow> char" where
  "digit_char d = ''0123456789'' ! d"

fun string_of_nat :: "nat \<Rightarrow> string" where
  "string_of_nat n =
     (if n < 10 then [digit_char n]
      else string_of_nat (n div 10) @ [digit_char (n mod 10)])"

declare string_of_nat.simps [simp del]

section \<open>The database driver and the column types\<close>

text \<open>
  The driver sends every parameter as text, \<^verbatim>\<open>null\<close> and \<^verbatim>\<open>undefined\<close> as SQL NULL
  (\<open>None\<close>). The server then reads the text with the input function of the type the
  statement gives the parameter; a text it rejects makes \<^verbatim>\<open>pool.query\<close> throw.
\<close>

fun prepareValue :: "jsval \<Rightarrow> string option" where
  "prepareValue JUndefined = None"
| "prepareValue JNull = None"
| "prepareValue (JBool b) = Some (if b then ''true'' else ''false'')"
| "prepareValue (JNum s) = Some s"
| "prepareValue (JStr s) = Some s"
| "prepareValue (JObj s) = Some s"

text \<open>
  A parameter read by an input function: \<open>None\<close> is an error, \<open>Some None\<close> is NULL.
\<close>

definition bind_param :: "(string \<Rightarrow> 'a option) \<Rightarrow> string option \<Rightarrow> 'a option option" where
  "bind_param f p = (case p of None \<Rightarrow> Some None | Some s \<Rightarrow> map_option Some (f s))"

text \<open>Text: any string without a zero byte.\<close>

definition text_in :: "string \<Rightarrow> string option" where
  "text_in s = (if CHR 0x00 \<in> set s then None else Some s)"

text \<open>
  Characters of a text: a byte of the form \<^verbatim>\<open>10xxxxxx\<close> continues the character that
  the bytes before it began. \<open>char_length\<close> counts the characters, \<open>take_chars n\<close> keeps
  the first \<open>n\<close> of them, and \<open>char_start\<close> says that a text does not begin inside a
  character.
\<close>

definition is_cont :: "char \<Rightarrow> bool" where
  "is_cont c = ((128::nat) \<le> of_char c \<and> of_char c < (192::nat))"

definition char_length :: "string \<Rightarrow> nat" where
  "char_length s = length (filter (\<lambda>c. \<not> is_cont c) s)"

fun take_chars :: "nat \<Rightarrow> string \<Rightarrow> string" where
  "take_chars n [] = []"
| "take_chars n (c # cs) =
     (if is_cont c then c # take_chars n cs
      else (case n of 0 \<Rightarrow> [] | Suc m \<Rightarrow> c # take_chars m cs))"

definition char_start :: "string \<Rightarrow> bool" where
  "char_start s = (case s of [] \<Rightarrow> True | c # cs \<Rightarrow> \<not> is_cont c)"

text \<open>
  Assignment to a \<^verbatim>\<open>VARCHAR(n)\<close> column: a value of more than \<open>n\<close> characters is an
  error unless the excess is spaces only, which are cut off.
\<close>

definition varchar :: "nat \<Rightarrow> string \<Rightarrow> string option" where
  "varchar n s =
     (if char_length s \<le> n then Some s
      else if list_all (\<lambda>c. c = CHR '' '') (drop (length (take_chars n s)) s)
      then Some (take_chars n s)
      else None)"

definition pg_isspace :: "char \<Rightarrow> bool" where
  "pg_isspace c = (c = CHR '' '' \<or> (9::nat) \<le> of_char c \<and> of_char c \<le> (13::nat))"

definition trim :: "string \<Rightarrow> string" where
  "trim s = rev (dropWhile pg_isspace (rev (dropWhile pg_isspace s)))"

text \<open>The letters A to Z in lower case, every other byte as it is.\<close>

definition ascii_lower_char :: "char \<Rightarrow> char" where
  "ascii_lower_char c =
     (if (65::nat) \<le> of_char c \<and> of_char c \<le> (90::nat) then char_of (of_char c + (32::nat)) else c)"

definition ascii_lower :: "string \<Rightarrow> string" where
  "ascii_lower s = map ascii_lower_char s"

text \<open>
  \<^verbatim>\<open>boolean\<close>: surrounding blanks are dropped; accepted, with A to Z in either case, are
  the non-empty prefixes of true, false, yes and no, the words on and off with their
  prefixes of at least two letters, and 1 and 0.
\<close>

definition bool_in :: "string \<Rightarrow> bool option" where
  "bool_in s =
     (let w = ascii_lower (trim s) in
      if w \<noteq> [] \<and> prefix w ''true'' then Some True
      else if w \<noteq> [] \<and> prefix w ''false'' then Some False
      else if w \<noteq> [] \<and> prefix w ''yes'' then Some True
      else if w \<noteq> [] \<and> prefix w ''no'' then Some False
      else if w = ''on'' then Some True
      else if w = ''of'' \<or> w = ''off'' then Some False
      else if w = ''1'' then Some True
      else if w = ''0'' then Some False
      else None)"

text \<open>
  What the source does not fix is the store it talks to. Three of the store's functions
  depend on its version and its locale and are parameters of the model: how it reads an
  \<^verbatim>\<open>integer\<close> (the type of \<^verbatim>\<open>id\<close>, so of the parameter in \<^verbatim>\<open>WHERE id = $n\<close>), how it
  reads a \<^verbatim>\<open>timestamp\<close>, of type \<open>'ts\<close>, and how its \<^verbatim>\<open>lower\<close> folds the letters of a
  text, which is what \<^verbatim>\<open>ILIKE\<close> compares.
\<close>

record 'ts store =
  int4in :: "string \<Rightarrow> int option"
  timestamp_in :: "string \<Rightarrow> 'ts option"
  text_lower :: "string \<Rightarrow> string"

text \<open>
  \<^verbatim>\<open>title ILIKE pattern\<close>: both sides are folded by the store's \<^verbatim>\<open>lower\<close> and then
  matched. In the pattern \<^verbatim>\<open>%\<close> stands for any run of characters, \<^verbatim>\<open>_\<close> for any one
  character, and a backslash takes the next byte literally. (A pattern that ends in a
  lone backslash is an error in the store and matches nothing here; the handler's
  patterns end in \<^verbatim>\<open>%\<close>.)
\<close>

function like_match :: "string \<Rightarrow> string \<Rightarrow> bool" where
  "like_match [] t = (t = [])"
| "like_match (p # ps) t =
     (if p = CHR ''%'' then
        (like_match ps t
         \<or> (case t of [] \<Rightarrow> False | c # cs \<Rightarrow> like_match (p # ps) (dropWhile is_cont cs)))
      else if p = CHR ''_'' then
        (case t of [] \<Rightarrow> False | c # cs \<Rightarrow> like_match ps (dropWhile is_cont cs))
      else if p = CHR 0x5C then
        (case ps of
           [] \<Rightarrow> False
         | q # qs \<Rightarrow> (case t of [] \<Rightarrow> False | c # cs \<Rightarrow> c = q \<and> like_match qs cs))
      else
        (case t of [] \<Rightarrow> False | c # cs \<Rightarrow> c = p \<and> like_match ps cs))"
  by pat_completeness auto
termination
  by (relation "measure (\<lambda>(p, t). length p + length t)")
     (auto simp: less_Suc_eq_le intro!: le_SucI length_dropWhile_le)

definition ilike :: "(string \<Rightarrow> string) \<Rightarrow> string \<Rightarrow> string \<Rightarrow> bool" where
  "ilike low t pat = like_match (low pat) (low t)"

section \<open>File names: \<^verbatim>\<open>path.extname\<close>\<close>

text \<open>
  The extension of a path as the runtime's \<^verbatim>\<open>path.extname\<close> (POSIX) finds it: one scan
  from the last character to the first, which stops at the separator before the last
  path component. The indices are those of the runtime's loop, \<open>- 1\<close> for "not seen".
\<close>

record ext_scan =
  startDot :: int
  startPart :: int
  endPos :: int
  matchedSlash :: bool
  preDotState :: int

definition ext_init :: ext_scan where
  "ext_init = \<lparr>startDot = - 1, startPart = 0, endPos = - 1, matchedSlash = True, preDotState = 0\<rparr>"

text \<open>
  The loop's body for a character that is not a separator: the first such character
  marks the end of the extension, then dots and other characters are told apart.
\<close>

definition mark_end :: "int \<Rightarrow> ext_scan \<Rightarrow> ext_scan" where
  "mark_end i s = (if endPos s = - 1 then s\<lparr>endPos := i + 1, matchedSlash := False\<rparr> else s)"

definition mark_char :: "char \<Rightarrow> int \<Rightarrow> ext_scan \<Rightarrow> ext_scan" where
  "mark_char c i s =
     (if c = CHR ''.'' then
        (if startDot s = - 1 then s\<lparr>startDot := i\<rparr>
         else if preDotState s \<noteq> 1 then s\<lparr>preDotState := 1\<rparr>
         else s)
      else if startDot s \<noteq> - 1 then s\<lparr>preDotState := - 1\<rparr>
      else s)"

text \<open>
  \<open>extname_scan cs i s\<close>: the loop at index \<open>i\<close>, where \<open>cs\<close> lists the characters
  at \<open>i\<close>, \<open>i - 1\<close>, ..., \<open>0\<close>.
\<close>

fun extname_scan :: "string \<Rightarrow> int \<Rightarrow> ext_scan \<Rightarrow> ext_scan" where
  "extname_scan [] i s = s"
| "extname_scan (c # cs) i s =
     (if c = CHR ''/'' then
        (if \<not> matchedSlash s then s\<lparr>startPart := i + 1\<rparr>
         else extname_scan cs (i - 1) s)
      else extname_scan cs (i - 1) (mark_char c i (mark_end i s)))"

definition slice :: "string \<Rightarrow> int \<Rightarrow> int \<Rightarrow> string" where
  "slice p a b = take (nat (b - a)) (drop (nat a) p)"

definition extname :: "string \<Rightarrow> string" where
  "extname p =
     (let s = extname_scan (rev p) (int (length p) - 1) ext_init in
      if startDot s = - 1 \<or> endPos s = - 1 \<or> preDotState s = 0
         \<or> (preDotState s = 1 \<and> startDot s = endPos s - 1 \<and> startDot s = startPart s + 1)
      then []
      else slice p (startDot s) (endPos s))"

section \<open>Tables, sequences and the uploads directory\<close>

text \<open>
  The rows of \<^verbatim>\<open>form_entries\<close> and \<^verbatim>\<open>todos\<close> as \<^verbatim>\<open>createTable\<close> declares them. A
  column without \<^verbatim>\<open>NOT NULL\<close> holds an optional value. The type \<open>'ts\<close> is the store's
  timestamp.
\<close>

record 'ts form_entry =
  fid :: int
  owner :: string
  shopname :: string
  businesstype :: string
  phone :: string
  location :: string
  building :: "string option"
  photo_url :: "string option"
  fcreated_at :: "'ts option"

record 'ts todo =
  tid :: int
  title :: string
  description :: "string option"
  completed :: "bool option"
  due_date :: "'ts option"
  created_at :: "'ts option"

text \<open>
  The server's state: both tables, the next value of each \<^verbatim>\<open>SERIAL\<close> sequence, and the
  files of the uploads directory by name.
\<close>

record 'ts state =
  form_entries :: "'ts form_entry list"
  form_seq :: int
  todos :: "'ts todo list"
  todos_seq :: int
  uploads :: "string \<rightharpoonup> string"

datatype 'ts payload =
    Error string
  | FormData "'ts form_entry"
  | FormRows "'ts form_entry list"
  | TodoData "'ts todo"
  | TodoRows "'ts todo list"
  | TodoDeleted string "'ts todo"
  | FileBytes string
  | NotFound

type_synonym 'ts response = "nat \<times> 'ts payload"

text \<open>Columns: \<^verbatim>\<open>VARCHAR(n) NOT NULL\<close>, \<^verbatim>\<open>VARCHAR(n)\<close> and \<^verbatim>\<open>TEXT\<close>.\<close>

definition col_varchar_nn :: "nat \<Rightarrow> string option \<Rightarrow> string option" where
  "col_varchar_nn n p =
     (case p of None \<Rightarrow> None | Some s \<Rightarrow> Option.bind (text_in s) (varchar n))"

definition col_varchar :: "nat \<Rightarrow> string option \<Rightarrow> string option option" where
  "col_varchar n p = bind_param (\<lambda>s. Option.bind (text_in s) (varchar n)) p"

definition col_text :: "string option \<Rightarrow> string option option" where
  "col_text p = bind_param text_in p"

text \<open>\<^verbatim>\<open>ORDER BY id DESC\<close>.\<close>

definition form_by_id_desc :: "'ts form_entry list \<Rightarrow> 'ts form_entry list" where
  "form_by_id_desc rows = rev (sort_key fid rows)"

definition todos_by_id_desc :: "'ts todo list \<Rightarrow> 'ts todo list" where
  "todos_by_id_desc rows = rev (sort_key tid rows)"

text \<open>
  \<^verbatim>\<open>INSERT INTO form_entries (...) VALUES ($1, ..., $7) RETURNING *\<close>. The values are
  read first; then \<^verbatim>\<open>id\<close> takes the next value of the sequence, which is used up even
  when the primary key rejects the row.
\<close>

definition form_values ::
  "'ts \<Rightarrow> int \<Rightarrow> string option \<Rightarrow> string option \<Rightarrow> string option \<Rightarrow> string option \<Rightarrow>
   string option \<Rightarrow> string option \<Rightarrow> string option \<Rightarrow> 'ts form_entry option" where
  "form_values now i p1 p2 p3 p4 p5 p6 p7 =
     Option.bind (col_varchar_nn 100 p1) (\<lambda>v1.
     Option.bind (col_varchar_nn 100 p2) (\<lambda>v2.
     Option.bind (col_varchar_nn 100 p3) (\<lambda>v3.
     Option.bind (col_varchar_nn 20 p4) (\<lambda>v4.
     Option.bind (col_varchar_nn 100 p5) (\<lambda>v5.
     Option.bind (col_varchar 100 p6) (\<lambda>v6.
     Option.bind (col_text p7) (\<lambda>v7.
       Some \<lparr>fid = i, owner = v1, shopname = v2, businesstype = v3, phone = v4,
             location = v5, building = v6, photo_url = v7, fcreated_at = Some now\<rparr>)))))))"

definition insert_form ::
  "'ts \<Rightarrow> string option \<Rightarrow> string option \<Rightarrow> string option \<Rightarrow> string option \<Rightarrow>
   string option \<Rightarrow> string option \<Rightarrow> string option \<Rightarrow> 'ts state \<Rightarrow>
   'ts form_entry option \<times> 'ts state" where
  "insert_form now p1 p2 p3 p4 p5 p6 p7 st =
     (case form_values now (form_seq st) p1 p2 p3 p4 p5 p6 p7 of
        None \<Rightarrow> (None, st)
      | Some r \<Rightarrow>
          if 2147483647 < form_seq st then (None, st)
          else if fid r \<in> set (map fid (form_entries st))
          then (None, st\<lparr>form_seq := form_seq st + 1\<rparr>)
          else (Some r, st\<lparr>form_entries := form_entries st @ [r],
                            form_seq := form_seq st + 1\<rparr>))"

text \<open>\<^verbatim>\<open>INSERT INTO todos (title, description, due_date) VALUES ($1, $2, $3) RETURNING *\<close>.\<close>

definition todo_values ::
  "(string \<Rightarrow> 'ts option) \<Rightarrow> 'ts \<Rightarrow> int \<Rightarrow> string option \<Rightarrow> string option \<Rightarrow> string option \<Rightarrow>
   'ts todo option" where
  "todo_values tsin now i p1 p2 p3 =
     Option.bind (col_varchar_nn 255 p1) (\<lambda>v1.
     Option.bind (col_text p2) (\<lambda>v2.
     Option.bind (bind_param tsin p3) (\<lambda>v3.
       Some \<lparr>tid = i, title = v1, description = v2, completed = Some False,
             due_date = v3, created_at = Some now\<rparr>)))"

definition insert_todo ::
  "(string \<Rightarrow> 'ts option) \<Rightarrow> 'ts \<Rightarrow> string option \<Rightarrow> string option \<Rightarrow> string option \<Rightarrow>
   'ts state \<Rightarrow> 'ts todo option \<times> 'ts state" where
  "insert_todo tsin now p1 p2 p3 st =
     (case todo_values tsin now (todos_seq st) p1 p2 p3 of
        None \<Rightarrow> (None, st)
      | Some r \<Rightarrow>
          if 2147483647 < todos_seq st then (None, st)
          else if tid r \<in> set (map tid (todos st))
          then (None, st\<lparr>todos_seq := todos_seq st + 1\<rparr>)
          else (Some r, st\<lparr>todos := todos st @ [r], todos_seq := todos_seq st + 1\<rparr>))"

section \<open>The upload handler\<close>

text \<open>
  \<^verbatim>\<open>multer.diskStorage\<close>: the file name is \<^verbatim>\<open>Date.now() + "-" + Math.round(Math.random() * 1e9)\<close>
  followed by \<^verbatim>\<open>path.extname(file.originalname)\<close>. The clock's milliseconds and the
  rounded random number are inputs of the request.
\<close>

record upload =
  originalname :: string
  content :: string

definition filename :: "nat \<Rightarrow> nat \<Rightarrow> string \<Rightarrow> string" where
  "filename date_now rnd orig =
     (let uniqueSuffix = string_of_nat date_now @ ''-'' @ string_of_nat rnd
      in uniqueSuffix @ extname orig)"

text \<open>
  \<^verbatim>\<open>upload.single("photo")\<close> runs before the route's handler: it writes the file into
  the uploads directory and leaves its name in \<^verbatim>\<open>req.file\<close>.
\<close>

definition upload_single ::
  "upload option \<Rightarrow> nat \<Rightarrow> nat \<Rightarrow> 'ts state \<Rightarrow> string option \<times> 'ts state" where
  "upload_single f date_now rnd st =
     (case f of
        None \<Rightarrow> (None, st)
      | Some u \<Rightarrow>
          (let fn = filename date_now rnd (originalname u)
           in (Some fn, st\<lparr>uploads := (uploads st)(fn \<mapsto> content u)\<rparr>)))"

text \<open>
  \<^verbatim>\<open>express.static(uploadDir)\<close> under \<^verbatim>\<open>/uploads\<close>: the bytes of the named file; a name
  that starts with a dot is not served.
\<close>

definition get_upload :: "string \<Rightarrow> 'ts state \<Rightarrow> 'ts response \<times> 'ts state" where
  "get_upload name st =
     (if name \<noteq> [] \<and> hd name = CHR ''.'' then ((404, NotFound), st)
      else case uploads st name of
             None \<Rightarrow> ((404, NotFound), st)
           | Some bytes \<Rightarrow> ((200, FileBytes bytes), st))"

section \<open>Form routes\<close>

definition base_url :: "env \<Rightarrow> string" where
  "base_url e =
     str_or (env_or (e ''BASE_URL'') ''https://vendroo-server.onrender.com'')
            (''http://localhost:'' @ env_or (e ''PORT'') ''5000'')"

text \<open>\<^verbatim>\<open>app.post("/api/form")\<close>, after the upload middleware.\<close>

definition post_form_handler ::
  "env \<Rightarrow> 'ts \<Rightarrow> body \<Rightarrow> string option \<Rightarrow> 'ts state \<Rightarrow> 'ts response \<times> 'ts state" where
  "post_form_handler e now b req_file st =
     (let ownerv = get_field b ''owner'';
          shopnamev = get_field b ''shopname'';
          businesstypev = get_field b ''businesstype'';
          phonev = get_field b ''phone'';
          locationv = get_field b ''location'';
          buildingv = get_field b ''building''
      in if \<not> truthy ownerv \<or> \<not> truthy shopnamev \<or> \<not> truthy businesstypev
            \<or> \<not> truthy phonev \<or> \<not> truthy locationv
         then ((400, Error ''Owner, shopname, businesstype, phone, and location are required''), st)
         else
           (let photo_urlv =
                  (case req_file of
                     None \<Rightarrow> JNull
                   | Some fn \<Rightarrow> JStr (base_url e @ ''/uploads/'' @ fn))
            in case insert_form now (prepareValue ownerv) (prepareValue shopnamev)
                      (prepareValue businesstypev) (prepareValue phonev)
                      (prepareValue locationv) (prepareValue (js_or buildingv (JStr [])))
                      (prepareValue photo_urlv) st of
                 (None, st') \<Rightarrow> ((500, Error ''Database insert failed''), st')
               | (Some r, st') \<Rightarrow> ((200, FormData r), st')))"

record 'ts form_request =
  fbody :: body
  req_file :: "upload option"
  date_now :: nat
  random :: nat
  db_now :: 'ts

definition post_form :: "env \<Rightarrow> 'ts form_request \<Rightarrow> 'ts state \<Rightarrow> 'ts response \<times> 'ts state" where
  "post_form e req st =
     (case upload_single (req_file req) (date_now req) (random req) st of
        (f, st1) \<Rightarrow> post_form_handler e (db_now req) (fbody req) f st1)"

text \<open>\<^verbatim>\<open>app.get("/api/form")\<close>.\<close>

definition get_form :: "'ts state \<Rightarrow> 'ts response \<times> 'ts state" where
  "get_form st = ((200, FormRows (form_by_id_desc (form_entries st))), st)"

section \<open>To-do routes\<close>

text \<open>\<^verbatim>\<open>app.post("/api/todos")\<close>.\<close>

definition post_todo ::
  "'ts store \<Rightarrow> 'ts \<Rightarrow> body \<Rightarrow> 'ts state \<Rightarrow> 'ts response \<times> 'ts state" where
  "post_todo pg now b st =
     (let titlev = get_field b ''title'';
          descriptionv = get_field b ''description'';
          due_datev = get_field b ''due_date''
      in if \<not> truthy titlev then ((400, Error ''Title is required''), st)
         else case insert_todo (timestamp_in pg) now (prepareValue titlev)
                     (prepareValue (js_or descriptionv (JStr [])))
                     (prepareValue (js_or due_datev JNull)) st of
                (None, st') \<Rightarrow> ((500, Error ''Database insert failed''), st')
              | (Some r, st') \<Rightarrow> ((200, TodoData r), st'))"

text \<open>
  \<^verbatim>\<open>app.get("/api/todos")\<close>: the conditions the handler collects, joined by \<^verbatim>\<open>AND\<close>.
  A row whose \<^verbatim>\<open>completed\<close> is NULL satisfies neither comparison.
\<close>

datatype condition = TitleILike string | CompletedIs bool

fun holds :: "(string \<Rightarrow> string) \<Rightarrow> condition \<Rightarrow> 'ts todo \<Rightarrow> bool" where
  "holds low (TitleILike pat) r = ilike low (title r) pat"
| "holds low (CompletedIs b) r = (completed r = Some b)"

definition conditions :: "qparam \<Rightarrow> qparam \<Rightarrow> condition list" where
  "conditions search status =
     (if q_truthy search then [TitleILike (''%'' @ q_text search @ ''%'')] else [])
     @ (if status = QString ''completed'' then [CompletedIs True]
        else if status = QString ''pending'' then [CompletedIs False]
        else [])"

definition select_todos :: "'ts store \<Rightarrow> condition list \<Rightarrow> 'ts state \<Rightarrow> 'ts todo list option" where
  "select_todos pg conds st =
     (if list_all (\<lambda>c. case c of TitleILike pat \<Rightarrow> text_in pat \<noteq> None | CompletedIs b \<Rightarrow> True) conds
      then Some (todos_by_id_desc
                   (filter (\<lambda>r. list_all (\<lambda>c. holds (text_lower pg) c r) conds) (todos st)))
      else None)"

definition get_todos ::
  "'ts store \<Rightarrow> qparam \<Rightarrow> qparam \<Rightarrow> 'ts state \<Rightarrow> 'ts response \<times> 'ts state" where
  "get_todos pg search status st =
     (case select_todos pg (conditions search status) st of
        None \<Rightarrow> ((500, Error ''Database fetch failed''), st)
      | Some rows \<Rightarrow> ((200, TodoRows rows), st))"

text \<open>
  \<^verbatim>\<open>UPDATE todos SET title = COALESCE($1, title), ... WHERE id = $5 RETURNING *\<close>: the
  parameters are read as text, text, boolean, timestamp and integer; a title given
  must fit the column.
\<close>

definition coalesce :: "'a option \<Rightarrow> 'a option \<Rightarrow> 'a option" where
  "coalesce a b = (case a of None \<Rightarrow> b | Some v \<Rightarrow> Some v)"

definition set_todo ::
  "string option \<Rightarrow> string option \<Rightarrow> bool option \<Rightarrow> 'ts option \<Rightarrow> 'ts todo \<Rightarrow> 'ts todo" where
  "set_todo t d c due r =
     r\<lparr>title := (case t of None \<Rightarrow> title r | Some v \<Rightarrow> v),
       description := coalesce d (description r),
       completed := coalesce c (completed r),
       due_date := coalesce due (due_date r)\<rparr>"

definition update_params ::
  "'ts store \<Rightarrow> string option \<Rightarrow> string option \<Rightarrow> string option \<Rightarrow> string option \<Rightarrow>
   string option \<Rightarrow> (('ts todo \<Rightarrow> 'ts todo) \<times> int option) option" where
  "update_params pg p1 p2 p3 p4 p5 =
     Option.bind (col_varchar 255 p1) (\<lambda>t.
     Option.bind (col_text p2) (\<lambda>d.
     Option.bind (bind_param bool_in p3) (\<lambda>c.
     Option.bind (bind_param (timestamp_in pg) p4) (\<lambda>due.
     Option.bind (bind_param (int4in pg) p5) (\<lambda>i.
       Some (set_todo t d c due, i))))))"

definition update_todos ::
  "'ts store \<Rightarrow> string option \<Rightarrow> string option \<Rightarrow> string option \<Rightarrow> string option \<Rightarrow>
   string option \<Rightarrow> 'ts state \<Rightarrow> 'ts todo list option \<times> 'ts state" where
  "update_todos pg p1 p2 p3 p4 p5 st =
     (case update_params pg p1 p2 p3 p4 p5 of
        None \<Rightarrow> (None, st)
      | Some (upd, i) \<Rightarrow>
          (Some (map upd (filter (\<lambda>r. Some (tid r) = i) (todos st))),
           st\<lparr>todos := map (\<lambda>r. if Some (tid r) = i then upd r else r) (todos st)\<rparr>))"

text \<open>\<^verbatim>\<open>app.put("/api/todos/:id")\<close>.\<close>

definition put_todo ::
  "'ts store \<Rightarrow> string \<Rightarrow> body \<Rightarrow> 'ts state \<Rightarrow> 'ts response \<times> 'ts state" where
  "put_todo pg idv b st =
     (let titlev = get_field b ''title'';
          descriptionv = get_field b ''description'';
          completedv = get_field b ''completed'';
          due_datev = get_field b ''due_date''
      in case update_todos pg (prepareValue (js_or titlev JNull))
                  (prepareValue (js_or descriptionv JNull)) (prepareValue completedv)
                  (prepareValue (js_or due_datev JNull)) (prepareValue (JStr idv)) st of
           (None, st') \<Rightarrow> ((500, Error ''Database update failed''), st')
         | (Some [], st') \<Rightarrow> ((404, Error ''To-Do not found''), st')
         | (Some (r # rs), st') \<Rightarrow> ((200, TodoData r), st'))"

text \<open>\<^verbatim>\<open>DELETE FROM todos WHERE id = $1 RETURNING *\<close> and \<^verbatim>\<open>app.delete("/api/todos/:id")\<close>.\<close>

definition delete_todos ::
  "'ts store \<Rightarrow> string option \<Rightarrow> 'ts state \<Rightarrow> 'ts todo list option \<times> 'ts state" where
  "delete_todos pg p st =
     (case bind_param (int4in pg) p of
        None \<Rightarrow> (None, st)
      | Some i \<Rightarrow>
          (Some (filter (\<lambda>r. Some (tid r) = i) (todos st)),
           st\<lparr>todos := filter (\<lambda>r. Some (tid r) \<noteq> i) (todos st)\<rparr>))"

definition delete_todo :: "'ts store \<Rightarrow> string \<Rightarrow> 'ts state \<Rightarrow> 'ts response \<times> 'ts state" where
  "delete_todo pg idv st =
     (case delete_todos pg (prepareValue (JStr idv)) st of
        (None, st') \<Rightarrow> ((500, Error ''Database delete failed''), st')
      | (Some [], st') \<Rightarrow> ((404, Error ''To-Do not found''), st')
      | (Some (r # rs), st') \<Rightarrow> ((200, TodoDeleted ''To-Do deleted'' r), st'))"

section \<open>The server as a whole\<close>

datatype 'ts request =
    PostForm "'ts form_request"
  | GetForm
  | PostTodo 'ts body
  | GetTodos qparam qparam
  | PutTodo string body
  | DeleteTodo string
  | GetUpload string

fun handle ::
  "env \<Rightarrow> 'ts store \<Rightarrow> 'ts request \<Rightarrow> 'ts state \<Rightarrow> 'ts response \<times> 'ts state" where
  "handle e pg (PostForm req) st = post_form e req st"
| "handle e pg GetForm st = get_form st"
| "handle e pg (PostTodo now b) st = post_todo pg now b st"
| "handle e pg (GetTodos search status) st = get_todos pg search status st"
| "handle e pg (PutTodo idv b) st = put_todo pg idv b st"
| "handle e pg (DeleteTodo idv) st = delete_todo pg idv st"
| "handle e pg (GetUpload name) st = get_upload name st"

text \<open>Requests served one after the other: the responses and the final state.\<close>

fun serve ::
  "env \<Rightarrow> 'ts store \<Rightarrow> 'ts request list \<Rightarrow> 'ts state \<Rightarrow> 'ts response list \<times> 'ts state" where
  "serve e pg [] st = ([], st)"
| "serve e pg (q # qs) st =
     (case handle e pg q st of
        (resp, st1) \<Rightarrow> (case serve e pg qs st1 of (resps, st2) \<Rightarrow> (resp # resps, st2)))"

section \<open>Sample data\<close>

text \<open>
  A sample store, a small state and a few requests on which the theorems below are run.
  The sample store stands for no particular version: it reads an integer written in
  decimal digits, with blanks around it and a sign before it (a store may read more,
  such as \<^verbatim>\<open>0x1\<close>); it reads as a timestamp a text of the shape \<^verbatim>\<open>dddd-dd-dd\<close> and
  nothing else, and keeps it as that text; and its \<^verbatim>\<open>lower\<close> folds the letters A to Z
  only, as a store in the C locale does. The theorems hold for every store; the sample
  is used on texts that every store reads in the same way.
\<close>

definition is_digit :: "char \<Rightarrow> bool" where
  "is_digit c = ((48::nat) \<le> of_char c \<and> of_char c \<le> (57::nat))"

definition digits_val :: "string \<Rightarrow> int" where
  "digits_val ds = foldl (\<lambda>a c. 10 * a + (int (of_char c) - 48)) 0 ds"

definition decimal_int4 :: "string \<Rightarrow> int option" where
  "decimal_int4 s =
     (let s1 = dropWhile pg_isspace s;
          neg = (s1 \<noteq> [] \<and> hd s1 = CHR ''-'');
          s2 = (if s1 \<noteq> [] \<and> (hd s1 = CHR ''-'' \<or> hd s1 = CHR ''+'') then tl s1 else s1);
          ds = takeWhile is_digit s2;
          rest = dropWhile pg_isspace (dropWhile is_digit s2);
          v = (if neg then - digits_val ds else digits_val ds)
      in if ds = [] \<or> rest \<noteq> [] then None
         else if - 2147483648 \<le> v \<and> v \<le> 2147483647 then Some v
         else None)"

definition iso_date :: "string \<Rightarrow> string option" where
  "iso_date s =
     (if length s = 10 \<and> list_all is_digit (take 4 s) \<and> s ! 4 = CHR ''-''
         \<and> list_all is_digit (take 2 (drop 5 s)) \<and> s ! 7 = CHR ''-''
         \<and> list_all is_digit (drop 8 s)
      then Some s else None)"

definition demo_pg :: "string store" where
  "demo_pg = \<lparr>int4in = decimal_int4, timestamp_in = iso_date, text_lower = ascii_lower\<rparr>"

definition demo_todo :: "string todo" where
  "demo_todo =
     \<lparr>tid = 1, title = ''Buy milk'', description = Some ''2 litres'', completed = Some False,
      due_date = Some ''2024-01-01'', created_at = Some ''2023-12-24''\<rparr>"

definition demo_state :: "string state" where
  "demo_state =
     \<lparr>form_entries = [], form_seq = 1, todos = [demo_todo], todos_seq = 2,
      uploads = Map.empty\<rparr>"

definition demo_upload :: upload where
  "demo_upload = \<lparr>originalname = ''shop.png'', content = ''PNG-bytes''\<rparr>"

definition demo_form :: body where
  "demo_form =
     [''owner'' \<mapsto> JStr ''Asha'', ''shopname'' \<mapsto> JStr ''Corner Shop'',
      ''businesstype'' \<mapsto> JStr ''grocery'', ''phone'' \<mapsto> JStr ''5550100'',
      ''location'' \<mapsto> JStr ''Kochi'']"

definition demo_bad_request :: "string form_request" where
  "demo_bad_request =
     \<lparr>fbody = demo_form(''phone'' := None), req_file = Some demo_upload, date_now = 1712,
      random = 42, db_now = ''2024-03-01''\<rparr>"

definition demo_request :: "string form_request" where
  "demo_request =
     \<lparr>fbody = demo_form, req_file = Some demo_upload, date_now = 1712, random = 42,
      db_now = ''2024-03-01''\<rparr>"

definition demo_env :: env where
  "demo_env = [''BASE_URL'' \<mapsto> ''https://api.example.org'']"

definition demo_entry :: "string \<Rightarrow> string form_entry" where
  "demo_entry url =
     \<lparr>fid = 1, owner = ''Asha'', shopname = ''Corner Shop'', businesstype = ''grocery'',
      phone = ''5550100'', location = ''Kochi'', building = Some [], photo_url = Some url,
      fcreated_at = Some ''2024-03-01''\<rparr>"

definition dotfile_request :: "string form_request" where
  "dotfile_request =
     \<lparr>fbody = demo_form, req_file = Some \<lparr>originalname = ''.png'', content = ''PNG-bytes''\<rparr>,
      date_now = 1712, random = 42, db_now = ''2024-03-01''\<rparr>"

section \<open>The base URL in the words of the specification\<close>

text \<open>
  The specification describes the base URL as the first non-empty of three candidates:
  the explicit override, the production address, and localhost with the port. This is
  that description, to be compared with \<open>base_url\<close>, which follows the code.
\<close>

fun first_non_empty :: "string option list \<Rightarrow> string option" where
  "first_non_empty [] = None"
| "first_non_empty (None # xs) = first_non_empty xs"
| "first_non_empty (Some s # xs) = (if s \<noteq> [] then Some s else first_non_empty xs)"

definition spec_base_url :: "env \<Rightarrow> string option" where
  "spec_base_url e =
     first_non_empty
       [e ''BASE_URL'',
        Some ''https://vendroo-server.onrender.com'',
        Some (''http://localhost:'' @ (case first_non_empty [e ''PORT''] of
                                         None \<Rightarrow> ''5000'' | Some p \<Rightarrow> p))]"

section \<open>Rows created during a run\<close>

text \<open>
  The rows that the successful \<^verbatim>\<open>POST /api/form\<close> requests of a run returned, in the
  order of their creation.
\<close>

definition created_form :: "'ts response \<Rightarrow> 'ts form_entry list" where
  "created_form resp =
     (case snd resp of FormData r \<Rightarrow> if fst resp = 200 then [r] else [] | _ \<Rightarrow> [])"

definition created_forms :: "'ts response list \<Rightarrow> 'ts form_entry list" where
  "created_forms resps = concat (map created_form resps)"

definition demo_request2 :: "string form_request" where
  "demo_request2 =
     \<lparr>fbody = demo_form, req_file = None, date_now = 1800, random = 7,
      db_now = ''2024-03-02''\<rparr>"

definition demo_entry2 :: "string form_entry" where
  "demo_entry2 =
     \<lparr>fid = 2, owner = ''Asha'', shopname = ''Corner Shop'', businesstype = ''grocery'',
      phone = ''5550100'', location = ''Kochi'', building = Some [], photo_url = None,
      fcreated_at = Some ''2024-03-02''\<rparr>"

definition demo_state2 :: "string state" where
  "demo_state2 =
     demo_state\<lparr>form_entries :=
                  [demo_entry ''https://api.example.org/uploads/1712-42.png'', demo_entry2],
                form_seq := 3, uploads := [''1712-42.png'' \<mapsto> ''PNG-bytes'']\<rparr>"

section \<open>The search in the words of the specification\<close>

text \<open>
  The specification describes the list's filters as a case-insensitive substring match
  against the title, and a status that is completed or pending. These are those
  descriptions, to be compared with the conditions the handler builds; without case
  means: after the store's \<^verbatim>\<open>lower\<close> has folded both texts.
  \<open>contains s t\<close>: the string \<open>s\<close> occurs in \<open>t\<close> as a run of adjacent bytes, which for
  a text \<open>s\<close> that begins at a character is an occurrence as a run of characters.
\<close>

fun contains :: "string \<Rightarrow> string \<Rightarrow> bool" where
  "contains s [] = (s = [])"
| "contains s (c # cs) = (prefix s (c # cs) \<or> contains s cs)"

definition spec_search :: "'ts store \<Rightarrow> string \<Rightarrow> 'ts todo \<Rightarrow> bool" where
  "spec_search pg s r = contains (text_lower pg s) (text_lower pg (title r))"

definition spec_status :: "qparam \<Rightarrow> 'ts todo \<Rightarrow> bool" where
  "spec_status status r =
     (if status = QString ''completed'' then completed r = Some True
      else if status = QString ''pending'' then completed r = Some False
      else True)"

definition spec_filter :: "'ts store \<Rightarrow> qparam \<Rightarrow> qparam \<Rightarrow> 'ts todo \<Rightarrow> bool" where
  "spec_filter pg search status r =
     ((search = QAbsent \<or> spec_search pg (q_text search) r) \<and> spec_status status r)"

text \<open>A search text without the pattern characters and without a zero byte.\<close>

definition like_plain :: "string \<Rightarrow> bool" where
  "like_plain s =
     list_all (\<lambda>c. c \<noteq> CHR ''%'' \<and> c \<noteq> CHR ''_'' \<and> c \<noteq> CHR 0x5C \<and> c \<noteq> CHR 0x00) s"

text \<open>
  What is taken of the store's \<^verbatim>\<open>lower\<close> on a search text \<open>s\<close>: of the pattern
  \<^verbatim>\<open>%s%\<close> it folds the text and leaves the two \<^verbatim>\<open>%\<close> in place; the folded text has no
  pattern character and begins at a character; and the empty text stays empty.
\<close>

definition folds_pattern :: "(string \<Rightarrow> string) \<Rightarrow> string \<Rightarrow> bool" where
  "folds_pattern low s =
     (low (CHR ''%'' # s @ ''%'') = CHR ''%'' # low s @ ''%''
      \<and> like_plain (low s) \<and> char_start (low s) \<and> (s = [] \<longrightarrow> low s = []))"

definition demo_todo2 :: "string todo" where
  "demo_todo2 =
     \<lparr>tid = 2, title = ''MILK the cow'', description = None, completed = Some True,
      due_date = None, created_at = Some ''2023-12-25''\<rparr>"

definition demo_todo3 :: "string todo" where
  "demo_todo3 =
     \<lparr>tid = 3, title = ''Call bank'', description = Some [], completed = Some False,
      due_date = None, created_at = Some ''2023-12-26''\<rparr>"

definition demo_list_state :: "string state" where
  "demo_list_state = demo_state\<lparr>todos := [demo_todo, demo_todo2, demo_todo3], todos_seq := 4\<rparr>"

section \<open>Identifiers that are not integers (C10)\<close>

lemma update_params_bad_id:
  "int4in pg idv = None \<Longrightarrow> update_params pg p1 p2 p3 p4 (Some idv) = None"
  by (simp add: update_params_def bind_param_def split: Option.bind_splits)

lemma demo_int_abc: "int4in demo_pg ''abc'' = None"
  by (simp add: demo_pg_def decimal_int4_def pg_isspace_def is_digit_def)

text \<open>
  C10. The path's \<^verbatim>\<open>id\<close> goes into the statement as the string it is. When the store
  does not read it as an integer, whatever the store's syntax of integers is,
  \<^verbatim>\<open>PUT /api/todos/:id\<close> and \<^verbatim>\<open>DELETE /api/todos/:id\<close> answer 500 (not 404) and the
  state, so the table of to-dos, is as before.
\<close>

theorem unparseable_id_is_storage_error:
  "int4in pg idv = None \<Longrightarrow>
     put_todo pg idv b st = ((500, Error ''Database update failed''), st)
     \<and> delete_todo pg idv st = ((500, Error ''Database delete failed''), st)"
  by (simp add: put_todo_def update_todos_def update_params_bad_id
        delete_todo_def delete_todos_def bind_param_def)

theorem unparseable_id_is_storage_error_witness:
  "int4in demo_pg ''abc'' = None
   \<and> put_todo demo_pg ''abc'' [''completed'' \<mapsto> JBool True] demo_state
       = ((500, Error ''Database update failed''), demo_state)
   \<and> delete_todo demo_pg ''abc'' demo_state
       = ((500, Error ''Database delete failed''), demo_state)"
  using unparseable_id_is_storage_error
          [OF demo_int_abc, of "[''completed'' \<mapsto> JBool True]" demo_state]
        demo_int_abc
  by simp

section \<open>Required fields of the form (C3) and the photo of a rejected form (C9)\<close>

lemma handler_rejects:
  "k \<in> {''owner'', ''shopname'', ''businesstype'', ''phone'', ''location''} \<Longrightarrow>
   \<not> truthy (get_field b k) \<Longrightarrow>
   post_form_handler e now b f st =
     ((400, Error ''Owner, shopname, businesstype, phone, and location are required''), st)"
  by (auto simp: post_form_handler_def Let_def)

lemma upload_single_tables:
  "upload_single f d r st = (fn, st1) \<Longrightarrow>
   form_entries st1 = form_entries st \<and> form_seq st1 = form_seq st
   \<and> todos st1 = todos st \<and> todos_seq st1 = todos_seq st"
  by (auto simp: upload_single_def Let_def split: option.splits)

text \<open>
  C3. When one of owner, shopname, businesstype, phone and location is omitted or is
  the empty string, \<^verbatim>\<open>POST /api/form\<close> answers 400 with the one message that lists the
  five required fields, whichever is missing, and \<^verbatim>\<open>form_entries\<close> and its sequence
  are as before.
\<close>

theorem form_missing_field_rejected:
  "k \<in> {''owner'', ''shopname'', ''businesstype'', ''phone'', ''location''} \<Longrightarrow>
   get_field (fbody req) k = JUndefined \<or> get_field (fbody req) k = JStr [] \<Longrightarrow>
   fst (post_form e req st) =
     (400, Error ''Owner, shopname, businesstype, phone, and location are required'')
   \<and> form_entries (snd (post_form e req st)) = form_entries st
   \<and> form_seq (snd (post_form e req st)) = form_seq st"
proof -
  assume k: "k \<in> {''owner'', ''shopname'', ''businesstype'', ''phone'', ''location''}"
    and v: "get_field (fbody req) k = JUndefined \<or> get_field (fbody req) k = JStr []"
  from v have falsy: "\<not> truthy (get_field (fbody req) k)" by auto
  obtain fn st1 where u: "upload_single (req_file req) (date_now req) (random req) st = (fn, st1)"
    by (cases "upload_single (req_file req) (date_now req) (random req) st")
  have "post_form e req st =
          ((400, Error ''Owner, shopname, businesstype, phone, and location are required''), st1)"
    by (simp add: post_form_def u handler_rejects [OF k falsy])
  with upload_single_tables [OF u] show ?thesis by simp
qed

lemma demo_form_no_phone:
  "get_field (demo_form(''phone'' := None)) ''phone'' = JUndefined"
  by (simp add: get_field_def)

theorem form_missing_field_rejected_witness:
  "fst (post_form Map.empty
          \<lparr>fbody = demo_form(''phone'' := None), req_file = None, date_now = 1712, random = 42,
           db_now = ''2024-03-01''\<rparr> demo_state) =
     (400, Error ''Owner, shopname, businesstype, phone, and location are required'')
   \<and> form_entries (snd (post_form Map.empty
          \<lparr>fbody = demo_form(''phone'' := None), req_file = None, date_now = 1712, random = 42,
           db_now = ''2024-03-01''\<rparr> demo_state)) = []"
  using form_missing_field_rejected [of "''phone''"
          "\<lparr>fbody = demo_form(''phone'' := None), req_file = None, date_now = 1712, random = 42,
            db_now = ''2024-03-01''\<rparr>" Map.empty demo_state]
        demo_form_no_phone
  by (simp add: demo_state_def)

lemma string_of_nat_not_Nil: "string_of_nat n \<noteq> []"
  by (subst string_of_nat.simps) simp

lemma digit_char_not_dot: "d < 10 \<Longrightarrow> digit_char d \<noteq> CHR ''.''"
proof -
  assume "d < 10"
  then have "d \<in> {0, 1, 2, 3, 4, 5, 6, 7, 8, 9}" by auto
  then show ?thesis by (auto simp: digit_char_def)
qed

lemma hd_string_of_nat: "hd (string_of_nat n) \<noteq> CHR ''.''"
proof (induction n rule: string_of_nat.induct)
  case (1 n)
  show ?case
  proof (cases "n < 10")
    case True
    then show ?thesis
      by (subst string_of_nat.simps) (simp add: digit_char_not_dot)
  next
    case False
    with 1 have "hd (string_of_nat (n div 10)) \<noteq> CHR ''.''" by simp
    with False show ?thesis
      by (subst string_of_nat.simps) (simp add: string_of_nat_not_Nil)
  qed
qed

lemma filename_served: "filename d r orig \<noteq> [] \<and> hd (filename d r orig) \<noteq> CHR ''.''"
  by (simp add: filename_def string_of_nat_not_Nil hd_string_of_nat)

lemma string_of_nat_1712: "string_of_nat 1712 = ''1712''"
  by (simp add: string_of_nat.simps digit_char_def)

lemma string_of_nat_42: "string_of_nat 42 = ''42''"
  by (simp add: string_of_nat.simps digit_char_def)

lemma extname_shop_png: "extname ''shop.png'' = ''.png''"
  by (simp add: extname_def ext_init_def slice_def mark_end_def mark_char_def)

lemma demo_filename: "filename 1712 42 ''shop.png'' = ''1712-42.png''"
  by (simp add: filename_def string_of_nat_1712 string_of_nat_42 extname_shop_png)

text \<open>
  C9. The upload middleware runs before the handler checks the fields. A form with a
  photo and a required field missing is answered 400, and yet the photo is in the
  uploads directory under its generated name, from where the static route serves it.
\<close>

theorem rejected_form_keeps_uploaded_photo:
  "req_file req = Some u \<Longrightarrow>
   k \<in> {''owner'', ''shopname'', ''businesstype'', ''phone'', ''location''} \<Longrightarrow>
   \<not> truthy (get_field (fbody req) k) \<Longrightarrow>
   post_form e req st =
     ((400, Error ''Owner, shopname, businesstype, phone, and location are required''),
      st\<lparr>uploads := (uploads st)(filename (date_now req) (random req) (originalname u) \<mapsto> content u)\<rparr>)
   \<and> fst (get_upload (filename (date_now req) (random req) (originalname u))
            (snd (post_form e req st))) = (200, FileBytes (content u))"
  by (simp add: post_form_def upload_single_def Let_def handler_rejects get_upload_def
        filename_served)

theorem rejected_form_keeps_uploaded_photo_witness:
  "post_form Map.empty demo_bad_request demo_state =
     ((400, Error ''Owner, shopname, businesstype, phone, and location are required''),
      demo_state\<lparr>uploads := [''1712-42.png'' \<mapsto> ''PNG-bytes'']\<rparr>)
   \<and> fst (get_upload ''1712-42.png'' (snd (post_form Map.empty demo_bad_request demo_state)))
       = (200, FileBytes ''PNG-bytes'')"
proof -
  have f: "req_file demo_bad_request = Some demo_upload"
    by (simp add: demo_bad_request_def)
  have k: "''phone'' \<in> {''owner'', ''shopname'', ''businesstype'', ''phone'', ''location''}"
    by simp
  have v: "\<not> truthy (get_field (fbody demo_bad_request) ''phone'')"
    by (simp add: demo_bad_request_def get_field_def)
  have n: "filename (date_now demo_bad_request) (random demo_bad_request)
             (originalname demo_upload) = ''1712-42.png''"
    by (simp add: demo_bad_request_def demo_upload_def demo_filename)
  have c: "content demo_upload = ''PNG-bytes''" by (simp add: demo_upload_def)
  have u: "uploads demo_state = Map.empty" by (simp add: demo_state_def)
  from rejected_form_keeps_uploaded_photo [OF f k v, of Map.empty demo_state, unfolded n c u]
  show ?thesis .
qed

section \<open>Deleting a to-do (C5)\<close>

lemma demo_int_1: "int4in demo_pg ''1'' = Some 1"
  by (simp add: demo_pg_def decimal_int4_def pg_isspace_def is_digit_def digits_val_def)

lemma demo_int_7: "int4in demo_pg ''7'' = Some 7"
  by (simp add: demo_pg_def decimal_int4_def pg_isspace_def is_digit_def digits_val_def)

lemma delete_todo_integer:
  assumes p: "int4in pg idv = Some i"
  shows "(i \<in> tid ` set (todos st) \<longrightarrow>
      (\<exists>r. r \<in> set (todos st) \<and> tid r = i
         \<and> fst (delete_todo pg idv st) = (200, TodoDeleted ''To-Do deleted'' r))
      \<and> todos (snd (delete_todo pg idv st)) = filter (\<lambda>r. tid r \<noteq> i) (todos st)
      \<and> (\<exists>rows. fst (get_todos pg QAbsent QAbsent (snd (delete_todo pg idv st)))
                    = (200, TodoRows rows)
            \<and> set rows = {r \<in> set (todos st). tid r \<noteq> i}))
   \<and> (i \<notin> tid ` set (todos st) \<longrightarrow>
        delete_todo pg idv st = ((404, Error ''To-Do not found''), st))"
proof -
  have d: "delete_todos pg (Some idv) st =
             (Some (filter (\<lambda>r. tid r = i) (todos st)),
              st\<lparr>todos := filter (\<lambda>r. tid r \<noteq> i) (todos st)\<rparr>)"
    by (simp add: delete_todos_def bind_param_def p)
  have t: "todos (snd (delete_todo pg idv st)) = filter (\<lambda>r. tid r \<noteq> i) (todos st)"
    by (simp add: delete_todo_def d split: list.splits)
  have l: "\<exists>rows. fst (get_todos pg QAbsent QAbsent (snd (delete_todo pg idv st)))
                    = (200, TodoRows rows)
            \<and> set rows = {r \<in> set (todos st). tid r \<noteq> i}"
    by (auto simp: get_todos_def select_todos_def conditions_def todos_by_id_desc_def t)
  have a: "delete_todo pg idv st = ((404, Error ''To-Do not found''), st)"
    if "i \<notin> tid ` set (todos st)"
  proof -
    from that have "filter (\<lambda>r. tid r = i) (todos st) = []"
      and "filter (\<lambda>r. tid r \<noteq> i) (todos st) = todos st"
      by (auto simp: filter_empty_conv filter_id_conv)
    then show ?thesis by (simp add: delete_todo_def d)
  qed
  have b: "\<exists>r. r \<in> set (todos st) \<and> tid r = i
         \<and> fst (delete_todo pg idv st) = (200, TodoDeleted ''To-Do deleted'' r)"
    if "i \<in> tid ` set (todos st)"
  proof -
    from that have "filter (\<lambda>r. tid r = i) (todos st) \<noteq> []"
      by (auto simp: filter_empty_conv)
    then obtain r rs where f: "filter (\<lambda>r. tid r = i) (todos st) = r # rs"
      by (cases "filter (\<lambda>r. tid r = i) (todos st)") auto
    then have "r \<in> set (filter (\<lambda>r. tid r = i) (todos st))" by simp
    then have "r \<in> set (todos st) \<and> tid r = i" by simp
    moreover have "fst (delete_todo pg idv st) = (200, TodoDeleted ''To-Do deleted'' r)"
      by (simp add: delete_todo_def d f)
    ultimately show ?thesis by blast
  qed
  from a b t l show ?thesis by blast
qed

lemma delete_todo_not_integer:
  "int4in pg idv = None \<Longrightarrow>
   delete_todo pg idv st = ((500, Error ''Database delete failed''), st)"
  by (simp add: delete_todo_def delete_todos_def bind_param_def)

text \<open>
  C5, as the code has it. \<^verbatim>\<open>DELETE /api/todos/:id\<close> with an id the store reads as the
  integer \<open>i\<close>: when a row has that id, the answer is 200 with the message and a deleted
  row of that id, the rows of that id are gone from the table, and the list read
  afterwards holds exactly the other rows; when no row has it, the answer is 404 and
  the state is as before. With an id the store does not read as an integer, which no
  row matches either, the answer is 500 and the state is as before.
\<close>

theorem delete_todo_outcomes:
  "(int4in pg idv = Some i \<and> i \<in> tid ` set (todos st) \<longrightarrow>
      (\<exists>r. r \<in> set (todos st) \<and> tid r = i
         \<and> fst (delete_todo pg idv st) = (200, TodoDeleted ''To-Do deleted'' r))
      \<and> todos (snd (delete_todo pg idv st)) = filter (\<lambda>r. tid r \<noteq> i) (todos st)
      \<and> (\<exists>rows. fst (get_todos pg QAbsent QAbsent (snd (delete_todo pg idv st)))
                    = (200, TodoRows rows)
            \<and> set rows = {r \<in> set (todos st). tid r \<noteq> i}))
   \<and> (int4in pg idv = Some i \<and> i \<notin> tid ` set (todos st) \<longrightarrow>
        delete_todo pg idv st = ((404, Error ''To-Do not found''), st))
   \<and> (int4in pg idv = None \<longrightarrow>
        delete_todo pg idv st = ((500, Error ''Database delete failed''), st))"
  using delete_todo_integer [of pg idv i st] delete_todo_not_integer [of pg idv st]
  by blast

theorem delete_todo_outcomes_witness:
  "fst (delete_todo demo_pg ''1'' demo_state) = (200, TodoDeleted ''To-Do deleted'' demo_todo)
   \<and> todos (snd (delete_todo demo_pg ''1'' demo_state)) = []
   \<and> delete_todo demo_pg ''7'' demo_state = ((404, Error ''To-Do not found''), demo_state)
   \<and> delete_todo demo_pg ''abc'' demo_state
       = ((500, Error ''Database delete failed''), demo_state)"
  using delete_todo_outcomes [of demo_pg "''1''" 1 demo_state]
        delete_todo_outcomes [of demo_pg "''7''" 7 demo_state]
        delete_todo_outcomes [of demo_pg "''abc''" 0 demo_state]
        demo_int_1 demo_int_7 demo_int_abc
  by (auto simp: demo_state_def demo_todo_def)

text \<open>
  The claim as written answers 404 whenever no row matches. The only row of the sample
  state has the id 1; the id \<^verbatim>\<open>abc\<close> matches no row, the store does not read it as an
  integer, and the answer is 500.
\<close>

theorem delete_non_integer_id_counterexample:
  "map tid (todos demo_state) = [1]
   \<and> int4in demo_pg ''abc'' = None
   \<and> delete_todo demo_pg ''abc'' demo_state
       = ((500, Error ''Database delete failed''), demo_state)"
  by (simp add: demo_state_def demo_todo_def demo_int_abc delete_todo_not_integer)

section \<open>Creating a to-do (C4)\<close>



lemma varchar_fits: "char_length s \<le> n \<Longrightarrow> varchar n s = Some s"
  by (simp add: varchar_def)





lemma col_text_Some: "col_text p = Some v \<Longrightarrow> v = p"
  by (auto simp: col_text_def bind_param_def text_in_def split: option.splits if_splits)










section \<open>The photo URL (C6) and the stored file name (C7)\<close>

lemma scan_keeps:
  "startDot s \<noteq> - 1 \<Longrightarrow> endPos s \<noteq> - 1 \<Longrightarrow> preDotState s \<noteq> 0 \<Longrightarrow>
   startDot (extname_scan cs i s) = startDot s
   \<and> endPos (extname_scan cs i s) = endPos s
   \<and> preDotState (extname_scan cs i s) \<noteq> 0"
proof (induction cs arbitrary: i s)
  case Nil
  then show ?case by simp
next
  case (Cons c cs)
  show ?case
  proof (cases "c = CHR ''/''")
    case True
    with Cons show ?thesis by simp
  next
    case False
    let ?s = "mark_char c i (mark_end i s)"
    from Cons.prems have "startDot ?s = startDot s \<and> endPos ?s = endPos s \<and> preDotState ?s \<noteq> 0"
      by (simp add: mark_char_def mark_end_def)
    with Cons.IH [of ?s "i - 1"] Cons.prems False show ?thesis by simp
  qed
qed

lemma extname_png:
  assumes c: "c \<noteq> CHR ''/''"
  shows "extname (base @ c # ''.png'') = ''.png''"
proof -
  let ?n = "int (length base)"
  let ?s = "\<lparr>startDot = 1 + ?n, startPart = 0, endPos = 5 + ?n, matchedSlash = False,
             preDotState = (if c = CHR ''.'' then 1 else - 1)\<rparr>"
  let ?r = "extname_scan (rev base) (?n - 1) ?s"
  have scan: "extname_scan (rev (base @ c # ''.png'')) (int (length (base @ c # ''.png'')) - 1) ext_init = ?r"
    using c by (simp add: ext_init_def mark_end_def mark_char_def)
  have keep: "startDot ?r = 1 + ?n \<and> endPos ?r = 5 + ?n \<and> preDotState ?r \<noteq> 0"
    using scan_keeps [of ?s "rev base" "?n - 1"] by simp
  have "slice (base @ c # ''.png'') (1 + ?n) (5 + ?n) = ''.png''"
    by (simp add: slice_def nat_add_distrib)
  with keep show ?thesis
    unfolding extname_def scan by (simp add: Let_def)
qed


lemma insert_form_Some:
  "insert_form now p1 p2 p3 p4 p5 p6 p7 st = (Some r, st') \<Longrightarrow>
   st' = st\<lparr>form_entries := form_entries st @ [r], form_seq := form_seq st + 1\<rparr>
   \<and> fid r = form_seq st \<and> fid r \<notin> fid ` set (form_entries st)
   \<and> col_text p7 = Some (photo_url r)"
  by (auto simp: insert_form_def form_values_def split: option.splits if_splits Option.bind_splits)

lemma insert_form_None:
  "insert_form now p1 p2 p3 p4 p5 p6 p7 st = (None, st') \<Longrightarrow>
   form_entries st' = form_entries st \<and> form_seq st \<le> form_seq st'"
  by (auto simp: insert_form_def split: option.splits if_splits)

lemma handler_200:
  assumes "post_form_handler e now b f st = ((200, FormData r), st')"
  shows "st' = st\<lparr>form_entries := form_entries st @ [r], form_seq := form_seq st + 1\<rparr>
         \<and> fid r = form_seq st \<and> fid r \<notin> fid ` set (form_entries st)
         \<and> photo_url r = map_option (\<lambda>fn. base_url e @ ''/uploads/'' @ fn) f"
proof -
  let ?url = "case f of None \<Rightarrow> JNull | Some fn \<Rightarrow> JStr (base_url e @ ''/uploads/'' @ fn)"
  from assms obtain p1 p2 p3 p4 p5 p6 where
    i: "insert_form now p1 p2 p3 p4 p5 p6 (prepareValue ?url) st = (Some r, st')"
    by (auto simp: post_form_handler_def Let_def split: if_splits prod.splits option.splits)
  from insert_form_Some [OF i] col_text_Some [of "prepareValue ?url" "photo_url r"]
  show ?thesis by (auto split: option.splits)
qed

lemma post_form_200:
  assumes "post_form e req st = ((200, FormData r), st')"
  shows "form_entries st' = form_entries st @ [r] \<and> form_seq st' = form_seq st + 1
         \<and> fid r = form_seq st \<and> fid r \<notin> fid ` set (form_entries st)
         \<and> photo_url r =
             (case req_file req of
                None \<Rightarrow> None
              | Some u \<Rightarrow> Some (base_url e @ ''/uploads/''
                                 @ filename (date_now req) (random req) (originalname u)))"
proof -
  obtain fn st1 where u: "upload_single (req_file req) (date_now req) (random req) st = (fn, st1)"
    by (cases "upload_single (req_file req) (date_now req) (random req) st")
  with assms have h: "post_form_handler e (db_now req) (fbody req) fn st1 = ((200, FormData r), st')"
    by (simp add: post_form_def)
  from u have "fn = map_option (\<lambda>u. filename (date_now req) (random req) (originalname u)) (req_file req)"
    by (auto simp: upload_single_def Let_def split: option.splits)
  with handler_200 [OF h] upload_single_tables [OF u] show ?thesis
    by (auto split: option.splits)
qed

lemma spec_base_url_eq: "spec_base_url e = Some (base_url e)"
  by (cases "e ''BASE_URL''") (simp_all add: spec_base_url_def base_url_def env_or_def str_or_def)

text \<open>
  C6. When \<^verbatim>\<open>POST /api/form\<close> succeeds, the row it stored has as \<^verbatim>\<open>photo_url\<close> the base
  URL, then \<^verbatim>\<open>/uploads/\<close>, then the generated file name when a file was attached, and
  NULL when none was. The base URL of the code is the first non-empty of the three
  candidates the specification names; it is the override when that is set and not
  empty, and the production address otherwise.
\<close>

theorem photo_url_of_created_form:
  "post_form e req st = ((200, FormData r), st') \<Longrightarrow>
   r \<in> set (form_entries st')
   \<and> photo_url r =
       (case req_file req of
          None \<Rightarrow> None
        | Some u \<Rightarrow> Some (base_url e @ ''/uploads/''
                           @ filename (date_now req) (random req) (originalname u)))
   \<and> spec_base_url e = Some (base_url e)
   \<and> base_url e = (case e ''BASE_URL'' of
                     None \<Rightarrow> ''https://vendroo-server.onrender.com''
                   | Some s \<Rightarrow> if s \<noteq> [] then s else ''https://vendroo-server.onrender.com'')"
proof -
  assume a: "post_form e req st = ((200, FormData r), st')"
  have "base_url e = (case e ''BASE_URL'' of
                     None \<Rightarrow> ''https://vendroo-server.onrender.com''
                   | Some s \<Rightarrow> if s \<noteq> [] then s else ''https://vendroo-server.onrender.com'')"
    by (simp add: base_url_def env_or_def str_or_def split: option.splits)
  with post_form_200 [OF a] spec_base_url_eq [of e] show ?thesis by simp
qed

lemma demo_varchar:
  "varchar 100 ''Asha'' = Some ''Asha''" "varchar 100 ''Corner Shop'' = Some ''Corner Shop''"
  "varchar 100 ''grocery'' = Some ''grocery''" "varchar 20 ''5550100'' = Some ''5550100''"
  "varchar 100 ''Kochi'' = Some ''Kochi''" "varchar 100 [] = Some []"
  by (simp_all add: varchar_fits char_length_def is_cont_def)

lemma demo_post_form:
  "post_form demo_env demo_request demo_state =
     ((200, FormData (demo_entry ''https://api.example.org/uploads/1712-42.png'')),
      demo_state\<lparr>form_entries := [demo_entry ''https://api.example.org/uploads/1712-42.png''],
                 form_seq := 2, uploads := [''1712-42.png'' \<mapsto> ''PNG-bytes'']\<rparr>)"
  by (simp add: post_form_def demo_request_def upload_single_def demo_upload_def demo_filename
        post_form_handler_def Let_def demo_form_def get_field_def js_or_def base_url_def
        demo_env_def env_or_def str_or_def insert_form_def form_values_def col_varchar_nn_def
        col_varchar_def col_text_def bind_param_def text_in_def demo_varchar demo_state_def
        demo_entry_def)

theorem photo_url_of_created_form_witness:
  "post_form demo_env demo_request demo_state =
     ((200, FormData (demo_entry ''https://api.example.org/uploads/1712-42.png'')),
      demo_state\<lparr>form_entries := [demo_entry ''https://api.example.org/uploads/1712-42.png''],
                 form_seq := 2, uploads := [''1712-42.png'' \<mapsto> ''PNG-bytes'']\<rparr>)
   \<and> photo_url (demo_entry ''https://api.example.org/uploads/1712-42.png'') =
       Some (base_url demo_env @ ''/uploads/'' @ filename 1712 42 ''shop.png'')
   \<and> spec_base_url demo_env = Some ''https://api.example.org''"
  using photo_url_of_created_form [OF demo_post_form] demo_post_form
  by (simp add: demo_request_def demo_upload_def base_url_def demo_env_def env_or_def str_or_def)


text \<open>
  C7, as the code has it. The stored file name is the clock's milliseconds, a hyphen
  and the random integer, followed by the extension \<^verbatim>\<open>path.extname\<close> finds in the
  original name, and the photo URL of a created form ends in that extension. The
  extension is \<^verbatim>\<open>.png\<close>, so the URL ends in \<^verbatim>\<open>.png\<close>, for every name that ends in
  \<^verbatim>\<open>.png\<close> with a character other than the separator before the dot. Without a file the
  photo URL is NULL.
\<close>

theorem upload_filename_and_extension:
  "filename d rnd orig = string_of_nat d @ ''-'' @ string_of_nat rnd @ extname orig
   \<and> (post_form e req st = ((200, FormData r), st') \<and> req_file req = Some u \<longrightarrow>
        (\<exists>url. photo_url r = Some url \<and> suffix (extname (originalname u)) url))
   \<and> (post_form e req st = ((200, FormData r), st') \<and> req_file req = Some u
        \<and> originalname u = base @ c # ''.png'' \<and> c \<noteq> CHR ''/'' \<longrightarrow>
        (\<exists>url. photo_url r = Some url \<and> suffix ''.png'' url))
   \<and> (post_form e req st = ((200, FormData r), st') \<and> req_file req = None \<longrightarrow>
        photo_url r = None)"
proof (intro conjI impI)
  show "filename d rnd orig = string_of_nat d @ ''-'' @ string_of_nat rnd @ extname orig"
    by (simp add: filename_def)
next
  assume "post_form e req st = ((200, FormData r), st') \<and> req_file req = None"
  with post_form_200 [of e req st r st'] show "photo_url r = None" by simp
next
  assume a: "post_form e req st = ((200, FormData r), st') \<and> req_file req = Some u"
  with post_form_200 [of e req st r st']
  have "photo_url r = Some (base_url e @ ''/uploads/''
                             @ filename (date_now req) (random req) (originalname u))"
    by simp
  then show "\<exists>url. photo_url r = Some url \<and> suffix (extname (originalname u)) url"
    by (simp add: filename_def suffix_def)
next
  assume a: "post_form e req st = ((200, FormData r), st') \<and> req_file req = Some u
        \<and> originalname u = base @ c # ''.png'' \<and> c \<noteq> CHR ''/''"
  with post_form_200 [of e req st r st']
  have "photo_url r = Some (base_url e @ ''/uploads/''
                             @ filename (date_now req) (random req) (originalname u))"
    by simp
  moreover from a have "extname (originalname u) = ''.png''"
    by (simp add: extname_png)
  ultimately show "\<exists>url. photo_url r = Some url \<and> suffix ''.png'' url"
    by (simp add: filename_def suffix_def)
qed

theorem upload_filename_and_extension_witness:
  "filename 1712 42 ''shop.png'' = ''1712-42.png''
   \<and> (\<exists>url. photo_url (demo_entry ''https://api.example.org/uploads/1712-42.png'') = Some url
          \<and> suffix ''.png'' url)"
proof -
  have o: "originalname demo_upload = ''sho'' @ CHR ''p'' # ''.png''"
    by (simp add: demo_upload_def)
  have f: "req_file demo_request = Some demo_upload"
    by (simp add: demo_request_def)
  have c: "CHR ''p'' \<noteq> CHR ''/''" by simp
  note t = upload_filename_and_extension
         [where e = demo_env and req = demo_request and st = demo_state and u = demo_upload
            and base = "''sho''" and c = "CHR ''p''" and d = 1712 and rnd = 42
            and orig = "''shop.png''"
            and r = "demo_entry ''https://api.example.org/uploads/1712-42.png''"
            and st' = "demo_state\<lparr>form_entries := [demo_entry ''https://api.example.org/uploads/1712-42.png''],
                 form_seq := 2, uploads := [''1712-42.png'' \<mapsto> ''PNG-bytes'']\<rparr>"]
  from t have "filename 1712 42 ''shop.png''
                 = string_of_nat 1712 @ ''-'' @ string_of_nat 42 @ extname ''shop.png''"
    by (rule conjunct1)
  then have 1: "filename 1712 42 ''shop.png'' = ''1712-42.png''"
    by (simp add: string_of_nat_1712 string_of_nat_42 extname_shop_png)
  from t demo_post_form o f c
  have 2: "\<exists>url. photo_url (demo_entry ''https://api.example.org/uploads/1712-42.png'') = Some url
          \<and> suffix ''.png'' url"
    by blast
  from 1 2 show ?thesis by (rule conjI)
qed

lemma extname_dot_png: "extname ''.png'' = []"
  by (simp add: extname_def ext_init_def slice_def mark_end_def mark_char_def)

lemma dotfile_filename: "filename 1712 42 ''.png'' = ''1712-42''"
  by (simp add: filename_def string_of_nat_1712 string_of_nat_42 extname_dot_png)

text \<open>
  The claim as written speaks of every name that ends in \<^verbatim>\<open>.png\<close>. The name \<^verbatim>\<open>.png\<close>
  itself does, and \<^verbatim>\<open>path.extname\<close> finds no extension in it: the form is created and
  its photo URL does not end in \<^verbatim>\<open>.png\<close>.
\<close>

theorem dotfile_photo_url_counterexample:
  "req_file dotfile_request = Some \<lparr>originalname = ''.png'', content = ''PNG-bytes''\<rparr>
   \<and> suffix ''.png'' ''.png''
   \<and> fst (post_form Map.empty dotfile_request demo_state) =
       (200, FormData (demo_entry ''https://vendroo-server.onrender.com/uploads/1712-42''))
   \<and> \<not> suffix ''.png'' ''https://vendroo-server.onrender.com/uploads/1712-42''"
  by (simp add: post_form_def dotfile_request_def upload_single_def dotfile_filename
        post_form_handler_def Let_def demo_form_def get_field_def js_or_def base_url_def
        env_or_def str_or_def insert_form_def form_values_def col_varchar_nn_def
        col_varchar_def col_text_def bind_param_def text_in_def demo_varchar demo_state_def
        demo_entry_def suffix_to_prefix)

section \<open>Listing the forms (C8)\<close>

lemma handler_outcome:
  assumes h: "post_form_handler e now b f st = (resp, st')"
  shows "(\<exists>r. resp = (200, FormData r))
   \<or> (created_form resp = [] \<and> form_entries st' = form_entries st \<and> form_seq st \<le> form_seq st')"
proof (cases "truthy (get_field b ''owner'') \<and> truthy (get_field b ''shopname'')
              \<and> truthy (get_field b ''businesstype'') \<and> truthy (get_field b ''phone'')
              \<and> truthy (get_field b ''location'')")
  case False
  then have "post_form_handler e now b f st =
     ((400, Error ''Owner, shopname, businesstype, phone, and location are required''), st)"
    by (simp add: post_form_handler_def Let_def)
  with h show ?thesis by (auto simp: created_form_def)
next
  case True
  let ?url = "case f of None \<Rightarrow> JNull | Some fn \<Rightarrow> JStr (base_url e @ ''/uploads/'' @ fn)"
  obtain res st1 where i: "insert_form now (prepareValue (get_field b ''owner''))
      (prepareValue (get_field b ''shopname'')) (prepareValue (get_field b ''businesstype''))
      (prepareValue (get_field b ''phone'')) (prepareValue (get_field b ''location''))
      (prepareValue (js_or (get_field b ''building'') (JStr []))) (prepareValue ?url) st = (res, st1)"
    by (rule prod.exhaust)
  show ?thesis
  proof (cases res)
    case None
    with True i h have "resp = (500, Error ''Database insert failed'') \<and> st' = st1"
      by (simp add: post_form_handler_def Let_def)
    with insert_form_None [OF i [unfolded None]] show ?thesis
      by (simp add: created_form_def)
  next
    case (Some r)
    with True i h have "resp = (200, FormData r)"
      by (simp add: post_form_handler_def Let_def)
    then show ?thesis by blast
  qed
qed

lemma post_form_outcome:
  assumes "post_form e req st = (resp, st')"
  shows "(\<exists>r. resp = (200, FormData r) \<and> form_entries st' = form_entries st @ [r]
              \<and> fid r = form_seq st \<and> fid r \<notin> fid ` set (form_entries st)
              \<and> form_seq st' = form_seq st + 1)
         \<or> (created_form resp = [] \<and> form_entries st' = form_entries st
             \<and> form_seq st \<le> form_seq st')"
proof -
  obtain fn st1 where u: "upload_single (req_file req) (date_now req) (random req) st = (fn, st1)"
    by (cases "upload_single (req_file req) (date_now req) (random req) st")
  with assms have h: "post_form_handler e (db_now req) (fbody req) fn st1 = (resp, st')"
    by (simp add: post_form_def)
  from handler_outcome [OF h] show ?thesis
  proof
    assume "\<exists>r. resp = (200, FormData r)"
    then obtain r where "resp = (200, FormData r)" ..
    with assms post_form_200 [of e req st r st'] show ?thesis by auto
  next
    assume "created_form resp = [] \<and> form_entries st' = form_entries st1
              \<and> form_seq st1 \<le> form_seq st'"
    with upload_single_tables [OF u] show ?thesis by simp
  qed
qed

lemma update_todos_forms:
  "update_todos pg p1 p2 p3 p4 p5 st = (res, st') \<Longrightarrow>
   form_entries st' = form_entries st \<and> form_seq st' = form_seq st"
  by (auto simp: update_todos_def split: option.splits prod.splits)

lemma delete_todos_forms:
  "delete_todos pg p st = (res, st') \<Longrightarrow>
   form_entries st' = form_entries st \<and> form_seq st' = form_seq st"
  by (auto simp: delete_todos_def split: option.splits)

lemma insert_todo_forms:
  "insert_todo tsin now p1 p2 p3 st = (res, st') \<Longrightarrow>
   form_entries st' = form_entries st \<and> form_seq st' = form_seq st"
  by (auto simp: insert_todo_def split: option.splits if_splits)

lemma post_todo_forms:
  "post_todo pg now b st = (resp, st') \<Longrightarrow>
   created_form resp = [] \<and> form_entries st' = form_entries st \<and> form_seq st' = form_seq st"
  by (auto simp: post_todo_def Let_def created_form_def
           split: if_splits prod.splits option.splits dest: insert_todo_forms)

lemma get_todos_forms:
  "get_todos pg search status st = (resp, st') \<Longrightarrow>
   created_form resp = [] \<and> form_entries st' = form_entries st \<and> form_seq st' = form_seq st"
  by (auto simp: get_todos_def created_form_def split: option.splits)

lemma put_todo_forms:
  "put_todo pg idv b st = (resp, st') \<Longrightarrow>
   created_form resp = [] \<and> form_entries st' = form_entries st \<and> form_seq st' = form_seq st"
  by (auto simp: put_todo_def Let_def created_form_def
           split: prod.splits option.splits list.splits dest: update_todos_forms)

lemma delete_todo_forms:
  "delete_todo pg idv st = (resp, st') \<Longrightarrow>
   created_form resp = [] \<and> form_entries st' = form_entries st \<and> form_seq st' = form_seq st"
  by (auto simp: delete_todo_def created_form_def
           split: prod.splits option.splits list.splits dest: delete_todos_forms)

lemma get_upload_forms:
  "get_upload name st = (resp, st') \<Longrightarrow>
   created_form resp = [] \<and> form_entries st' = form_entries st \<and> form_seq st' = form_seq st"
  by (auto simp: get_upload_def created_form_def split: if_splits option.splits)

lemma get_form_forms:
  "get_form st = (resp, st') \<Longrightarrow>
   created_form resp = [] \<and> form_entries st' = form_entries st \<and> form_seq st' = form_seq st"
  by (auto simp: get_form_def created_form_def)

lemma handle_outcome:
  assumes "handle e pg q st = (resp, st')"
  shows "(\<exists>r. resp = (200, FormData r) \<and> created_form resp = [r]
              \<and> form_entries st' = form_entries st @ [r]
              \<and> fid r = form_seq st \<and> fid r \<notin> fid ` set (form_entries st)
              \<and> form_seq st' = form_seq st + 1)
         \<or> (created_form resp = [] \<and> form_entries st' = form_entries st
             \<and> form_seq st \<le> form_seq st')"
proof (cases q)
  case (PostForm req)
  with assms post_form_outcome [of e req st resp st'] show ?thesis
    by (auto simp: created_form_def)
next
  case GetForm
  with assms get_form_forms [of st resp st'] show ?thesis by simp
next
  case (PostTodo now b)
  with assms post_todo_forms [of pg now b st resp st'] show ?thesis by simp
next
  case (GetTodos search status)
  with assms get_todos_forms [of pg search status st resp st'] show ?thesis by simp
next
  case (PutTodo idv b)
  with assms put_todo_forms [of pg idv b st resp st'] show ?thesis by simp
next
  case (DeleteTodo idv)
  with assms delete_todo_forms [of pg idv st resp st'] show ?thesis by simp
next
  case (GetUpload name)
  with assms get_upload_forms [of name st resp st'] show ?thesis by simp
qed


lemma serve_forms:
  "serve e pg qs st = (resps, st') \<Longrightarrow>
   form_entries st' = form_entries st @ created_forms resps
   \<and> form_seq st \<le> form_seq st'
   \<and> (\<forall>r \<in> set (created_forms resps).
         form_seq st \<le> fid r \<and> fid r < form_seq st' \<and> fid r \<notin> fid ` set (form_entries st))
   \<and> sorted_wrt (<) (map fid (created_forms resps))"
proof (induction qs arbitrary: st resps st')
  case Nil
  then show ?case by (simp add: created_forms_def)
next
  case (Cons q qs)
  obtain resp st1 where h: "handle e pg q st = (resp, st1)"
    by (rule prod.exhaust)
  obtain resps1 st2 where s: "serve e pg qs st1 = (resps1, st2)"
    by (rule prod.exhaust)
  from Cons.prems h s have r: "resps = resp # resps1" and st2: "st' = st2"
    by simp_all
  note ih = Cons.IH [OF s]
  have c: "created_forms resps = created_form resp @ created_forms resps1"
    by (simp add: r created_forms_def)
  from handle_outcome [OF h] show ?case
  proof
    assume "created_form resp = [] \<and> form_entries st1 = form_entries st
              \<and> form_seq st \<le> form_seq st1"
    with ih c st2 show ?thesis by auto
  next
    assume "\<exists>r. resp = (200, FormData r) \<and> created_form resp = [r]
              \<and> form_entries st1 = form_entries st @ [r]
              \<and> fid r = form_seq st \<and> fid r \<notin> fid ` set (form_entries st)
              \<and> form_seq st1 = form_seq st + 1"
    then obtain r where a: "created_form resp = [r]"
        "form_entries st1 = form_entries st @ [r]" "fid r = form_seq st"
        "fid r \<notin> fid ` set (form_entries st)" "form_seq st1 = form_seq st + 1"
      by blast
    from ih a c st2 show ?thesis by (auto simp: image_iff)
  qed
qed

lemma listing_of_created:
  assumes new: "\<forall>r \<in> set cs. fid r \<notin> fid ` set fs"
    and inc: "sorted_wrt (<) (map fid cs)"
  shows "filter (\<lambda>r. r \<in> set cs) (form_by_id_desc (fs @ cs)) = rev cs"
proof -
  let ?P = "\<lambda>r. r \<in> set cs"
  from new have f: "filter ?P fs = []"
    by (auto simp: filter_empty_conv)
  have c: "filter ?P cs = cs"
    by (simp add: filter_id_conv)
  from inc have "sorted (map fid cs)"
    by (rule strict_sorted_imp_sorted)
  then have k: "sort_key fid cs = cs"
    by (rule sort_key_id_if_sorted)
  have "filter ?P (form_by_id_desc (fs @ cs)) = rev (filter ?P (sort_key fid (fs @ cs)))"
    by (simp add: form_by_id_desc_def rev_filter)
  also have "\<dots> = rev (sort_key fid (filter ?P (fs @ cs)))"
    by (simp only: filter_sort)
  also have "\<dots> = rev (sort_key fid cs)"
    by (simp only: filter_append f c append_Nil)
  also have "\<dots> = rev cs"
    by (simp only: k)
  finally show ?thesis .
qed

text \<open>
  C8. After any run of requests, \<^verbatim>\<open>GET /api/form\<close> answers 200 with every row of
  \<^verbatim>\<open>form_entries\<close>, each as often as the table holds it, in descending order of id.
  The list is at least as long as the number of forms the run created, and the rows
  the run created stand in it in the reverse order of their creation, the most recent
  one first.
\<close>

theorem form_listing_newest_first:
  "serve e pg qs st = (resps, st') \<Longrightarrow>
   (\<exists>rows. get_form st' = ((200, FormRows rows), st')
      \<and> mset rows = mset (form_entries st')
      \<and> sorted (rev (map fid rows))
      \<and> length (created_forms resps) \<le> length rows
      \<and> filter (\<lambda>r. r \<in> set (created_forms resps)) rows = rev (created_forms resps))"
proof -
  assume a: "serve e pg qs st = (resps, st')"
  note s = serve_forms [OF a]
  let ?rows = "form_by_id_desc (form_entries st')"
  have 1: "get_form st' = ((200, FormRows ?rows), st')"
    by (simp add: get_form_def)
  have 2: "mset ?rows = mset (form_entries st')"
    by (simp add: form_by_id_desc_def)
  have 3: "sorted (rev (map fid ?rows))"
    by (simp add: form_by_id_desc_def rev_map)
  from s have 4: "length (created_forms resps) \<le> length ?rows"
    by (simp add: form_by_id_desc_def)
  from s have 5: "filter (\<lambda>r. r \<in> set (created_forms resps)) ?rows = rev (created_forms resps)"
    using listing_of_created [of "created_forms resps" "form_entries st"] by simp
  from 1 2 3 4 5 show ?thesis by blast
qed


lemma demo_post_form2:
  "post_form demo_env demo_request2
     (demo_state\<lparr>form_entries := [demo_entry ''https://api.example.org/uploads/1712-42.png''],
                 form_seq := 2, uploads := [''1712-42.png'' \<mapsto> ''PNG-bytes'']\<rparr>) =
     ((200, FormData demo_entry2), demo_state2)"
  by (simp add: post_form_def demo_request2_def upload_single_def
        post_form_handler_def Let_def demo_form_def get_field_def js_or_def
        insert_form_def form_values_def col_varchar_nn_def
        col_varchar_def col_text_def bind_param_def text_in_def demo_varchar demo_state_def
        demo_entry_def demo_entry2_def demo_state2_def)

lemma demo_serve:
  "serve demo_env demo_pg [PostForm demo_request, PostForm demo_request2] demo_state =
     ([(200, FormData (demo_entry ''https://api.example.org/uploads/1712-42.png'')),
       (200, FormData demo_entry2)], demo_state2)"
  by (simp add: demo_post_form demo_post_form2)

theorem form_listing_newest_first_witness:
  "\<exists>rows. get_form demo_state2 = ((200, FormRows rows), demo_state2)
      \<and> 2 \<le> length rows
      \<and> filter (\<lambda>r. r \<in> {demo_entry ''https://api.example.org/uploads/1712-42.png'', demo_entry2})
           rows
         = [demo_entry2, demo_entry ''https://api.example.org/uploads/1712-42.png'']"
  using form_listing_newest_first [OF demo_serve]
  by (auto simp: created_forms_def created_form_def numeral_2_eq_2)

section \<open>Listing the to-dos (C2)\<close>

lemma like_match_plain:
  "like_plain p \<Longrightarrow> like_match (p @ q) t = (\<exists>t'. t = p @ t' \<and> like_match q t')"
proof (induction p arbitrary: t)
  case Nil
  then show ?case by simp
next
  case (Cons a p)
  then have a: "a \<noteq> CHR ''%''" "a \<noteq> CHR ''_''" "a \<noteq> CHR 0x5C" and p: "like_plain p"
    by (simp_all add: like_plain_def)
  show ?case
  proof (cases t)
    case Nil
    with a show ?thesis by simp
  next
    case (Cons c cs)
    with a Cons.IH [OF p, of cs] show ?thesis by auto
  qed
qed

lemma like_match_any: "like_match ''%'' t"
proof (induction "length t" arbitrary: t rule: less_induct)
  case less
  show ?case
  proof (cases t)
    case Nil
    then show ?thesis by simp
  next
    case (Cons c cs)
    have "length (dropWhile is_cont cs) < length t"
      using Cons by (simp add: le_imp_less_Suc length_dropWhile_le)
    from less [OF this] Cons show ?thesis by simp
  qed
qed

lemma dropWhile_char_start:
  "char_start v \<Longrightarrow> dropWhile is_cont (u @ v) = dropWhile is_cont u @ v"
  by (induction u) (auto simp: char_start_def split: list.splits)

lemma char_start_dropWhile: "char_start (dropWhile is_cont xs)"
  by (induction xs) (auto simp: char_start_def)

lemma like_match_percent:
  "like_match (CHR ''%'' # q) t
     = (\<exists>u v. t = u @ v \<and> (u = [] \<or> char_start v) \<and> like_match q v)"
proof (induction "length t" arbitrary: t rule: less_induct)
  case less
  show ?case
  proof (cases t)
    case Nil
    then show ?thesis by simp
  next
    case (Cons c cs)
    let ?d = "dropWhile is_cont cs"
    have "length ?d < length t"
      using Cons by (simp add: le_imp_less_Suc length_dropWhile_le)
    note ih = less [OF this]
    have step: "like_match (CHR ''%'' # q) t = (like_match q t \<or> like_match (CHR ''%'' # q) ?d)"
      using Cons by simp
    have key: "(\<exists>u v. t = u @ v \<and> (u = [] \<or> char_start v) \<and> like_match q v)
                 = (like_match q t
                    \<or> (\<exists>u v. ?d = u @ v \<and> (u = [] \<or> char_start v) \<and> like_match q v))"
    proof
      assume "\<exists>u v. t = u @ v \<and> (u = [] \<or> char_start v) \<and> like_match q v"
      then obtain u v where uv: "t = u @ v" "u = [] \<or> char_start v" "like_match q v"
        by blast
      show "like_match q t
              \<or> (\<exists>u v. ?d = u @ v \<and> (u = [] \<or> char_start v) \<and> like_match q v)"
      proof (cases u)
        case Nil
        with uv show ?thesis by simp
      next
        case (Cons a u0)
        with uv \<open>t = c # cs\<close> have cs: "cs = u0 @ v" and v: "char_start v" by simp_all
        then have "?d = dropWhile is_cont u0 @ v"
          by (simp add: dropWhile_char_start)
        with v uv(3) show ?thesis by blast
      qed
    next
      assume "like_match q t
              \<or> (\<exists>u v. ?d = u @ v \<and> (u = [] \<or> char_start v) \<and> like_match q v)"
      then show "\<exists>u v. t = u @ v \<and> (u = [] \<or> char_start v) \<and> like_match q v"
      proof
        assume "like_match q t"
        then have "t = [] @ t \<and> ([] = [] \<or> char_start t) \<and> like_match q t" by simp
        then show ?thesis by blast
      next
        assume "\<exists>u v. ?d = u @ v \<and> (u = [] \<or> char_start v) \<and> like_match q v"
        then obtain u v where uv: "?d = u @ v" "u = [] \<or> char_start v" "like_match q v"
          by blast
        have "char_start v"
        proof (cases "u = []")
          case True
          with uv(1) char_start_dropWhile [of cs] show ?thesis by simp
        next
          case False
          with uv(2) show ?thesis by simp
        qed
        moreover have "t = (c # takeWhile is_cont cs @ u) @ v"
          using Cons uv(1) takeWhile_dropWhile_id [of is_cont cs] by simp
        ultimately show ?thesis using uv(3) by blast
      qed
    qed
    from step ih key show ?thesis by simp
  qed
qed

lemma contains_iff: "contains s t = (\<exists>u v. t = u @ s @ v)"
proof (induction t)
  case Nil
  then show ?case by auto
next
  case (Cons c cs)
  have "(\<exists>u v. c # cs = u @ s @ v) = (prefix s (c # cs) \<or> (\<exists>u v. cs = u @ s @ v))"
    by (auto simp: Cons_eq_append_conv prefix_def)
  with Cons show ?case by simp
qed

lemma contains_Nil: "contains [] t"
  by (cases t) simp_all

lemma like_match_contains:
  assumes p: "like_plain p" and c: "char_start p"
  shows "like_match (CHR ''%'' # p @ ''%'') t = contains p t"
proof -
  have "like_match (CHR ''%'' # p @ ''%'') t
          = (\<exists>u v. t = u @ v \<and> (u = [] \<or> char_start v) \<and> like_match (p @ ''%'') v)"
    by (rule like_match_percent)
  also have "\<dots> = (\<exists>u v. t = u @ v \<and> (u = [] \<or> char_start v) \<and> (\<exists>t'. v = p @ t'))"
    by (simp add: like_match_plain [OF p] like_match_any del: like_match.simps)
  also have "\<dots> = (\<exists>u v. t = u @ p @ v)"
  proof
    assume "\<exists>u v. t = u @ v \<and> (u = [] \<or> char_start v) \<and> (\<exists>t'. v = p @ t')"
    then show "\<exists>u v. t = u @ p @ v" by blast
  next
    assume "\<exists>u v. t = u @ p @ v"
    then obtain u v where t: "t = u @ p @ v" by blast
    show "\<exists>u v. t = u @ v \<and> (u = [] \<or> char_start v) \<and> (\<exists>t'. v = p @ t')"
    proof (cases p)
      case Nil
      then have "t = [] @ t \<and> ([] = [] \<or> char_start t) \<and> (\<exists>t'. t = p @ t')" by simp
      then show ?thesis by blast
    next
      case (Cons a p0)
      with c have "char_start (p @ v)" by (simp add: char_start_def)
      with t show ?thesis by blast
    qed
  qed
  also have "\<dots> = contains p t"
    by (simp add: contains_iff)
  finally show ?thesis .
qed

lemma ilike_is_contains:
  assumes "folds_pattern low s"
  shows "ilike low t (CHR ''%'' # s @ ''%'') = contains (low s) (low t)"
  using assms like_match_contains [of "low s" "low t"]
  by (simp add: ilike_def folds_pattern_def)

lemma like_plain_text_in: "like_plain s \<Longrightarrow> text_in (CHR ''%'' # s @ ''%'') \<noteq> None"
  by (auto simp: like_plain_def text_in_def list_all_iff)

lemma conditions_spec:
  assumes "search \<noteq> QAbsent \<longrightarrow>
             like_plain (q_text search) \<and> folds_pattern (text_lower pg) (q_text search)"
  shows "list_all (\<lambda>c. holds (text_lower pg) c r) (conditions search status)
           = spec_filter pg search status r"
proof (cases "q_truthy search")
  case True
  then have "search \<noteq> QAbsent" by auto
  with assms have "folds_pattern (text_lower pg) (q_text search)" by simp
  with True \<open>search \<noteq> QAbsent\<close> show ?thesis
    by (simp add: conditions_def spec_filter_def spec_status_def ilike_is_contains spec_search_def)
next
  case False
  have "search = QAbsent \<or> spec_search pg (q_text search) r"
  proof (cases "search = QAbsent")
    case True
    then show ?thesis by simp
  next
    case n: False
    with False have "q_text search = []" by (cases search) auto
    moreover from n assms have "folds_pattern (text_lower pg) (q_text search)" by simp
    ultimately have "text_lower pg (q_text search) = []"
      by (simp add: folds_pattern_def)
    then show ?thesis by (simp add: spec_search_def contains_Nil)
  qed
  with False show ?thesis
    by (simp add: conditions_def spec_filter_def spec_status_def)
qed

lemma conditions_accepted:
  assumes "search \<noteq> QAbsent \<longrightarrow> like_plain (q_text search)"
  shows "list_all (\<lambda>c. case c of TitleILike pat \<Rightarrow> text_in pat \<noteq> None | CompletedIs b \<Rightarrow> True)
           (conditions search status)"
proof (cases "q_truthy search")
  case True
  then have "search \<noteq> QAbsent" by auto
  with assms have "text_in (CHR ''%'' # q_text search @ ''%'') \<noteq> None"
    by (simp add: like_plain_text_in)
  with True show ?thesis by (simp add: conditions_def)
next
  case False
  then show ?thesis by (simp add: conditions_def)
qed

text \<open>
  C2, as the code has it. \<^verbatim>\<open>GET /api/todos\<close> with a search text that has none of the
  pattern characters \<^verbatim>\<open>%\<close>, \<^verbatim>\<open>_\<close> and backslash and no zero byte, and which the store's
  \<^verbatim>\<open>lower\<close> folds as a text: the answer is 200 with exactly the rows whose title
  contains the search text, both folded to lower case by the store, and whose
  \<^verbatim>\<open>completed\<close> is true for the status completed and false for the status pending;
  both filters together when both are given; no status filter for an absent or any
  other status, no search filter for an absent search. The rows come in descending
  order of id, each as often as the table holds it.
\<close>

theorem todo_listing_filters:
  "(search \<noteq> QAbsent \<longrightarrow>
      like_plain (q_text search) \<and> folds_pattern (text_lower pg) (q_text search)) \<Longrightarrow>
   get_todos pg search status st =
     ((200, TodoRows (todos_by_id_desc (filter (spec_filter pg search status) (todos st)))), st)
   \<and> mset (todos_by_id_desc (filter (spec_filter pg search status) (todos st)))
       = filter_mset (spec_filter pg search status) (mset (todos st))
   \<and> sorted (rev (map tid (todos_by_id_desc (filter (spec_filter pg search status) (todos st)))))"
proof -
  assume a: "search \<noteq> QAbsent \<longrightarrow>
      like_plain (q_text search) \<and> folds_pattern (text_lower pg) (q_text search)"
  then have b: "search \<noteq> QAbsent \<longrightarrow> like_plain (q_text search)" by simp
  have "filter (\<lambda>r. list_all (\<lambda>c. holds (text_lower pg) c r) (conditions search status)) (todos st)
          = filter (spec_filter pg search status) (todos st)"
    by (simp add: conditions_spec [OF a])
  with conditions_accepted [OF b, of status]
  have "get_todos pg search status st =
     ((200, TodoRows (todos_by_id_desc (filter (spec_filter pg search status) (todos st)))), st)"
    by (simp add: get_todos_def select_todos_def)
  then show ?thesis
    by (simp add: todos_by_id_desc_def rev_map)
qed

lemma demo_lower: "text_lower demo_pg = ascii_lower"
  by (simp add: demo_pg_def)

lemma lower_milk: "ascii_lower ''milk'' = ''milk''" "ascii_lower ''_'' = ''_''"
  "ascii_lower ''%_%'' = ''%_%''"
  by (simp_all add: ascii_lower_def ascii_lower_char_def)

lemma demo_titles:
  "ascii_lower ''Buy milk'' = ''buy milk''" "ascii_lower ''MILK the cow'' = ''milk the cow''"
  "ascii_lower ''Call bank'' = ''call bank''"
  by (simp_all add: ascii_lower_def ascii_lower_char_def char_of_eq_iff)

lemma demo_search: "like_plain ''milk'' \<and> folds_pattern (text_lower demo_pg) ''milk''"
  by (simp add: like_plain_def folds_pattern_def demo_lower lower_milk ascii_lower_def
        ascii_lower_char_def char_start_def is_cont_def)

lemma demo_spec_filter:
  "filter (spec_filter demo_pg (QString ''milk'') QAbsent) [demo_todo, demo_todo2, demo_todo3]
     = [demo_todo, demo_todo2]"
  by (simp add: spec_filter_def spec_search_def spec_status_def demo_todo_def demo_todo2_def
        demo_todo3_def demo_lower lower_milk demo_titles)

theorem todo_listing_filters_witness:
  "get_todos demo_pg (QString ''milk'') QAbsent demo_list_state =
     ((200, TodoRows [demo_todo2, demo_todo]), demo_list_state)"
proof -
  have p: "QString ''milk'' \<noteq> QAbsent \<longrightarrow>
             like_plain (q_text (QString ''milk''))
             \<and> folds_pattern (text_lower demo_pg) (q_text (QString ''milk''))"
    using demo_search by simp
  have t: "todos demo_list_state = [demo_todo, demo_todo2, demo_todo3]"
    by (simp add: demo_list_state_def)
  have s: "todos_by_id_desc [demo_todo, demo_todo2] = [demo_todo2, demo_todo]"
    by (simp add: todos_by_id_desc_def demo_todo_def demo_todo2_def)
  from todo_listing_filters [OF p, of QAbsent demo_list_state]
  show ?thesis by (simp only: t demo_spec_filter s)
qed

text \<open>
  The claim as written takes the search text literally. The handler puts it into an
  \<^verbatim>\<open>ILIKE\<close> pattern as it is, where \<^verbatim>\<open>_\<close> stands for any character: the search \<^verbatim>\<open>_\<close>
  returns the row titled \<^verbatim>\<open>Buy milk\<close>, whose title contains no underscore. And a search
  text with a zero byte is no text for the store: the answer is 500, not a list.
\<close>

theorem wildcard_search_counterexample:
  "get_todos demo_pg (QString ''_'') QAbsent demo_state
     = ((200, TodoRows [demo_todo]), demo_state)
   \<and> \<not> spec_search demo_pg ''_'' demo_todo
   \<and> get_todos demo_pg (QString [CHR 0x00]) QAbsent demo_state
       = ((500, Error ''Database fetch failed''), demo_state)"
proof -
  have "ilike ascii_lower ''Buy milk'' ''%_%''"
    by (simp add: ilike_def lower_milk demo_titles is_cont_def like_match_any
          del: like_match.simps)
       (simp add: is_cont_def)
  moreover have "\<not> contains ''_'' ''buy milk''"
    by simp
  ultimately show ?thesis
    by (simp add: get_todos_def select_todos_def conditions_def text_in_def todos_by_id_desc_def
          demo_state_def demo_todo_def spec_search_def demo_lower lower_milk demo_titles)
qed

section \<open>Updating a to-do (C1)\<close>


























end
